theory Spec2Isabelle
  imports Main "HOL-Library.Finite_Map"
begin

section \<open>The authentication gateway of the agent\<close>

text \<open>
  The repository checks credentials in two places: the gRPC interceptor
  (\<^verbatim>\<open>internal/auth/auth.go\<close>, type \<^verbatim>\<open>AuthInterceptor\<close>) and the REST
  server (package \<^verbatim>\<open>api\<close>, type \<^verbatim>\<open>Server\<close>). Both keep a map from the
  peer address to a failure record, and both are embedded here, each under
  the names of its source.

  Conventions of the embedding.
  \<^item> A \<^verbatim>\<open>time.Time\<close> is an \<open>int\<close>: nanoseconds counted from the zero
    \<^verbatim>\<open>time.Time\<close>, so that the zero value of the struct field is \<open>0\<close>;
    \<^verbatim>\<open>Before\<close> and \<^verbatim>\<open>After\<close> are the strict orders, \<^verbatim>\<open>Add\<close> and
    \<^verbatim>\<open>Sub\<close> are \<open>+\<close> and \<open>-\<close>.
  \<^item> Every call of \<^verbatim>\<open>time.Now()\<close> in the source is one argument of the
    embedded function, in the order of the calls; a reading is passed even
    when the branch that would take it is not run.
  \<^item> A Go map is a finite map; \<^verbatim>\<open>len\<close> is the size of its domain. The
    loops over a map only delete the entry they visit, so their result does
    not depend on Go's iteration order and they are filters.
  \<^item> The mutexes are not modelled: each method is one atomic step on the
    state it locks.
  \<^item> The failure counter is a Go \<^verbatim>\<open>int\<close>; it is modelled as \<open>int\<close>. It grows
    by one per rejected request, so the 64-bit bound is out of reach.
\<close>

subsection \<open>Time\<close>

type_synonym time = int

definition Second :: int where
  "Second = 1000000000"

definition Minute :: int where
  "Minute = 60 * Second"

definition Before :: "time \<Rightarrow> time \<Rightarrow> bool" where
  "Before t u = (t < u)"

definition After :: "time \<Rightarrow> time \<Rightarrow> bool" where
  "After t u = (u < t)"

subsection \<open>Strings and the comparison of secrets\<close>

definition HasPrefix :: "string \<Rightarrow> string \<Rightarrow> bool" where
  "HasPrefix s p = (length p \<le> length s \<and> take (length p) s = p)"

definition TrimPrefix :: "string \<Rightarrow> string \<Rightarrow> string" where
  "TrimPrefix s p = (if HasPrefix s p then drop (length p) s else s)"

text \<open>
  \<^verbatim>\<open>subtle.ConstantTimeCompare\<close> of the Go standard library returns 1 when
  the two byte slices are equal and 0 otherwise.
\<close>

definition ConstantTimeCompare :: "string \<Rightarrow> string \<Rightarrow> int" where
  "ConstantTimeCompare x y = (if x = y then 1 else 0)"

subsection \<open>The gRPC interceptor: constants and state\<close>

definition MaxFailedAttempts :: int where
  "MaxFailedAttempts = 5"

definition LockoutDuration :: int where
  "LockoutDuration = 15 * Minute"

definition TokenMinLength :: nat where
  "TokenMinLength = 32"

definition maxRecords :: nat where
  "maxRecords = 10000"

record attemptInfo =
  count :: int
  lockedUntil :: time

record AuthInterceptor =
  token :: string
  requireAuth :: bool
  failedAttempts :: "(string, attemptInfo) fmap"

text \<open>The zero value \<^verbatim>\<open>&attemptInfo{}\<close>.\<close>

definition attemptInfo_zero :: attemptInfo where
  "attemptInfo_zero = \<lparr>count = 0, lockedUntil = 0\<rparr>"

text \<open>\<^verbatim>\<open>len(m)\<close> of a Go map.\<close>

definition len :: "('k, 'v) fmap \<Rightarrow> nat" where
  "len m = fcard (fmdom m)"

subsection \<open>The gRPC interceptor: attempt tracking\<close>

text \<open>One pass of the loop body of \<^verbatim>\<open>cleanupFailedAttempts\<close>, run at every tick.\<close>

definition cleanup_deletes :: "time \<Rightarrow> attemptInfo \<Rightarrow> bool" where
  "cleanup_deletes now info =
     (if After now (lockedUntil info) \<and> count info < MaxFailedAttempts then True
      else if After now (lockedUntil info + 30 * Minute) then True
      else False)"

definition cleanupFailedAttempts :: "time \<Rightarrow> AuthInterceptor \<Rightarrow> AuthInterceptor" where
  "cleanupFailedAttempts now a =
     a\<lparr>failedAttempts :=
         fmfilter (\<lambda>ip. case fmlookup (failedAttempts a) ip of
                           None \<Rightarrow> False
                         | Some info \<Rightarrow> \<not> cleanup_deletes now info)
                  (failedAttempts a)\<rparr>"

definition isLocked :: "time \<Rightarrow> AuthInterceptor \<Rightarrow> string \<Rightarrow> bool" where
  "isLocked now a ip =
     (case fmlookup (failedAttempts a) ip of
        Some info \<Rightarrow> (if Before now (lockedUntil info) then True else False)
      | None \<Rightarrow> False)"

text \<open>The sweep inside \<^verbatim>\<open>recordFailedAttempt\<close>, run when the map is at the cap.\<close>

definition sweepExpired :: "time \<Rightarrow> (string, attemptInfo) fmap \<Rightarrow> (string, attemptInfo) fmap" where
  "sweepExpired now m =
     fmfilter (\<lambda>k. case fmlookup m k of
                     None \<Rightarrow> False
                   | Some v \<Rightarrow> \<not> After now (lockedUntil v)) m"

text \<open>
  \<^verbatim>\<open>recordFailedAttempt\<close>: \<open>now_sweep\<close> is the clock read before the sweep,
  \<open>now_lock\<close> the clock read when the lockout is set.
\<close>

definition recordFailedAttempt ::
  "time \<Rightarrow> time \<Rightarrow> AuthInterceptor \<Rightarrow> string \<Rightarrow> AuthInterceptor \<times> bool" where
  "recordFailedAttempt now_sweep now_lock a ip =
     (let m0 = failedAttempts a;
          m1 = (if maxRecords \<le> len m0 then sweepExpired now_sweep m0 else m0)
      in if maxRecords \<le> len m0 \<and> maxRecords \<le> len m1
         then (a\<lparr>failedAttempts := m1\<rparr>, False)
         else
           let m2 = (case fmlookup m1 ip of
                       None \<Rightarrow> fmupd ip attemptInfo_zero m1
                     | Some _ \<Rightarrow> m1);
               info = (case fmlookup m2 ip of
                         None \<Rightarrow> attemptInfo_zero
                       | Some i \<Rightarrow> i);
               info1 = info\<lparr>count := count info + 1\<rparr>
           in if MaxFailedAttempts \<le> count info1
              then (a\<lparr>failedAttempts :=
                        fmupd ip (info1\<lparr>lockedUntil := now_lock + LockoutDuration\<rparr>) m2\<rparr>,
                    True)
              else (a\<lparr>failedAttempts := fmupd ip info1 m2\<rparr>, False))"

definition resetFailedAttempts :: "AuthInterceptor \<Rightarrow> string \<Rightarrow> AuthInterceptor" where
  "resetFailedAttempts a ip = a\<lparr>failedAttempts := fmdrop ip (failedAttempts a)\<rparr>"

subsection \<open>The gRPC interceptor: the checkpoint\<close>

text \<open>
  What \<^verbatim>\<open>authorize\<close> reads from the \<^verbatim>\<open>context.Context\<close>: the peer
  address (\<^verbatim>\<open>peer.FromContext\<close>, absent when the call has no peer) and the
  incoming metadata (\<^verbatim>\<open>metadata.FromIncomingContext\<close>, absent when the call
  carries none), a map from lower-case keys to lists of values.
\<close>

record grpc_ctx =
  peer :: "string option"
  incoming :: "(string \<rightharpoonup> string list) option"

datatype codes = OK | ResourceExhausted | Unauthenticated

text \<open>
  The five message literals of \<^verbatim>\<open>authorize\<close>, in the order of the source.
  The literals are Chinese text; in English they read: too many failed
  authentications, retry later (line 205); metadata missing (line 211);
  authentication token missing (line 217); too many failed authentications,
  account locked (line 230); authentication token invalid (line 232).
\<close>

datatype message =
    TooManyRetryLater
  | MissingMetadata
  | MissingToken
  | TooManyAccountLocked
  | InvalidToken

text \<open>\<^verbatim>\<open>status.Error(code, msg)\<close>: a code and a message, and nothing else.\<close>

datatype status = Status codes message

fun status_code :: "status \<Rightarrow> codes" where
  "status_code (Status c m) = c"

fun status_message :: "status \<Rightarrow> message" where
  "status_message (Status c m) = m"

definition getClientIP :: "grpc_ctx \<Rightarrow> string" where
  "getClientIP ctx = (case peer ctx of Some addr \<Rightarrow> addr | None \<Rightarrow> ''unknown'')"

definition md_Get :: "(string \<rightharpoonup> string list) \<Rightarrow> string \<Rightarrow> string list" where
  "md_Get md k = (case md k of None \<Rightarrow> [] | Some vs \<Rightarrow> vs)"

text \<open>
  \<^verbatim>\<open>authorize\<close>. The result is the interceptor after the call and the
  returned error (\<open>None\<close> is \<^verbatim>\<open>nil\<close>: the handler runs). \<open>now_check\<close> is
  the clock read by \<^verbatim>\<open>isLocked\<close>, the other two are passed on to
  \<^verbatim>\<open>recordFailedAttempt\<close>.
\<close>

definition authorize ::
  "time \<Rightarrow> time \<Rightarrow> time \<Rightarrow> AuthInterceptor \<Rightarrow> grpc_ctx \<Rightarrow> AuthInterceptor \<times> status option" where
  "authorize now_check now_sweep now_lock a ctx =
     (let clientIP = getClientIP ctx
      in if isLocked now_check a clientIP
         then (a, Some (Status ResourceExhausted TooManyRetryLater))
         else
           case incoming ctx of
             None \<Rightarrow>
               (fst (recordFailedAttempt now_sweep now_lock a clientIP),
                Some (Status Unauthenticated MissingMetadata))
           | Some md \<Rightarrow>
               (case md_Get md ''authorization'' of
                  [] \<Rightarrow>
                    (fst (recordFailedAttempt now_sweep now_lock a clientIP),
                     Some (Status Unauthenticated MissingToken))
                | v # _ \<Rightarrow>
                    let tok = (if HasPrefix v ''Bearer '' then TrimPrefix v ''Bearer '' else v)
                    in if ConstantTimeCompare tok (token a) \<noteq> 1
                       then
                         (case recordFailedAttempt now_sweep now_lock a clientIP of
                            (a', locked) \<Rightarrow>
                              if locked
                              then (a', Some (Status ResourceExhausted TooManyAccountLocked))
                              else (a', Some (Status Unauthenticated InvalidToken)))
                       else (resetFailedAttempts a clientIP, None)))"

subsection \<open>The REST server\<close>

text \<open>
  \<^verbatim>\<open>apiAttemptInfo\<close> has the two fields of \<^verbatim>\<open>attemptInfo\<close> and
  \<^verbatim>\<open>lastAttempt\<close>. Of \<^verbatim>\<open>Server\<close> the collector is left out: the
  middleware never touches it.
\<close>

record apiAttemptInfo = attemptInfo +
  lastAttempt :: time

record Server =
  s_token :: string
  s_version :: string
  s_failedAttempts :: "(string, apiAttemptInfo) fmap"

definition apiAttemptInfo_zero :: apiAttemptInfo where
  "apiAttemptInfo_zero = \<lparr>count = 0, lockedUntil = 0, lastAttempt = 0\<rparr>"

text \<open>One pass of the loop body of \<^verbatim>\<open>cleanupLoop\<close>, run at every tick.\<close>

definition cleanupLoop_deletes :: "time \<Rightarrow> apiAttemptInfo \<Rightarrow> bool" where
  "cleanupLoop_deletes now info =
     (After now (lockedUntil info) \<and> now - lastAttempt info > 30 * Minute)"

definition cleanupLoop :: "time \<Rightarrow> Server \<Rightarrow> Server" where
  "cleanupLoop now s =
     s\<lparr>s_failedAttempts :=
         fmfilter (\<lambda>ip. case fmlookup (s_failedAttempts s) ip of
                           None \<Rightarrow> False
                         | Some info \<Rightarrow> \<not> cleanupLoop_deletes now info)
                  (s_failedAttempts s)\<rparr>"

text \<open>
  \<^verbatim>\<open>recordAPIFailedAttempt\<close>: \<open>now_attempt\<close> is the clock stored in
  \<^verbatim>\<open>lastAttempt\<close>, \<open>now_lock\<close> the clock read when the lockout is set.
\<close>

definition recordAPIFailedAttempt :: "time \<Rightarrow> time \<Rightarrow> Server \<Rightarrow> string \<Rightarrow> Server" where
  "recordAPIFailedAttempt now_attempt now_lock s ip =
     (let m0 = s_failedAttempts s;
          m1 = (case fmlookup m0 ip of
                  None \<Rightarrow> fmupd ip apiAttemptInfo_zero m0
                | Some _ \<Rightarrow> m0);
          info = (case fmlookup m1 ip of
                    None \<Rightarrow> apiAttemptInfo_zero
                  | Some i \<Rightarrow> i);
          info1 = info\<lparr>count := count info + 1\<rparr>;
          info2 = info1\<lparr>lastAttempt := now_attempt\<rparr>;
          info3 = (if 5 \<le> count info2
                   then info2\<lparr>lockedUntil := now_lock + 15 * Minute\<rparr>
                   else info2)
      in s\<lparr>s_failedAttempts := fmupd ip info3 m1\<rparr>)"

text \<open>
  A request as the middleware reads it: \<^verbatim>\<open>r.RemoteAddr\<close> and
  \<^verbatim>\<open>r.Header.Get("Authorization")\<close>, which is the empty string when the
  header is absent. A rejection is what \<^verbatim>\<open>jsonError\<close> writes, with the
  \<^verbatim>\<open>Retry-After\<close> header when it was set; \<open>Next\<close> is the call of the
  wrapped handler.
\<close>

record http_request =
  RemoteAddr :: string
  Authorization :: string

record http_error =
  RetryAfter :: "string option"
  StatusCode :: nat
  Error :: string

datatype http_result = Reject http_error | Next

definition StatusTooManyRequests :: nat where
  "StatusTooManyRequests = 429"

definition StatusUnauthorized :: nat where
  "StatusUnauthorized = 401"

definition authMiddleware ::
  "time \<Rightarrow> time \<Rightarrow> time \<Rightarrow> Server \<Rightarrow> http_request \<Rightarrow> Server \<times> http_result" where
  "authMiddleware now_check now_attempt now_lock s r =
     (let ip = RemoteAddr r
      in if (case fmlookup (s_failedAttempts s) ip of
               None \<Rightarrow> False
             | Some info \<Rightarrow> Before now_check (lockedUntil info))
         then (s, Reject \<lparr>RetryAfter = Some ''900'',
                          StatusCode = StatusTooManyRequests,
                          Error = ''Too many failed attempts''\<rparr>)
         else
           let auth = Authorization r
           in if auth = []
              then (recordAPIFailedAttempt now_attempt now_lock s ip,
                    Reject \<lparr>RetryAfter = None,
                            StatusCode = StatusUnauthorized,
                            Error = ''Missing authorization header''\<rparr>)
              else
                let tok = TrimPrefix auth ''Bearer ''
                in if ConstantTimeCompare tok (s_token s) \<noteq> 1
                   then (recordAPIFailedAttempt now_attempt now_lock s ip,
                         Reject \<lparr>RetryAfter = None,
                                 StatusCode = StatusUnauthorized,
                                 Error = ''Invalid token''\<rparr>)
                   else (s\<lparr>s_failedAttempts := fmdrop ip (s_failedAttempts s)\<rparr>, Next))"

subsection \<open>Sessions\<close>

record SessionInfo =
  Token :: string
  ClientIP :: string
  CreatedAt :: time
  LastUsed :: time

record SessionManager =
  sessions :: "(string, SessionInfo) fmap"

definition NewSessionManager :: SessionManager where
  "NewSessionManager = \<lparr>sessions = fmempty\<rparr>"

definition CreateSession ::
  "time \<Rightarrow> SessionManager \<Rightarrow> string \<Rightarrow> string \<Rightarrow> SessionManager \<times> SessionInfo" where
  "CreateSession now sm tok clientIP =
     (let session = \<lparr>Token = tok, ClientIP = clientIP, CreatedAt = now, LastUsed = now\<rparr>
      in (sm\<lparr>sessions := fmupd tok session (sessions sm)\<rparr>, session))"

text \<open>
  \<^verbatim>\<open>ValidateSession\<close> returns a pointer and an error. The error is
  \<^verbatim>\<open>nil\<close> on both paths, so the second component of the result is always
  \<open>None\<close>; the pointer is the stored session, read here after the update.
\<close>

datatype session_error = SessionError

definition ValidateSession ::
  "time \<Rightarrow> SessionManager \<Rightarrow> string
     \<Rightarrow> SessionManager \<times> SessionInfo option \<times> session_error option" where
  "ValidateSession now sm tok =
     (case fmlookup (sessions sm) tok of
        None \<Rightarrow> (sm, None, None)
      | Some session \<Rightarrow>
          let session' = session\<lparr>LastUsed := now\<rparr>
          in (sm\<lparr>sessions := fmupd tok session' (sessions sm)\<rparr>, Some session', None))"

definition RevokeSession :: "SessionManager \<Rightarrow> string \<Rightarrow> SessionManager" where
  "RevokeSession sm tok = sm\<lparr>sessions := fmdrop tok (sessions sm)\<rparr>"

definition RevokeAllSessions :: "SessionManager \<Rightarrow> SessionManager" where
  "RevokeAllSessions sm = sm\<lparr>sessions := fmempty\<rparr>"

definition GetActiveSessions :: "SessionManager \<Rightarrow> nat" where
  "GetActiveSessions sm = len (sessions sm)"

definition GetSessionInfo :: "SessionManager \<Rightarrow> string \<Rightarrow> SessionInfo option" where
  "GetSessionInfo sm tok = fmlookup (sessions sm) tok"

subsection \<open>The credential of a request, in the words of the specification\<close>

text \<open>
  The specification speaks of the credential in the authorization field, after
  stripping an exact-case \<^verbatim>\<open>Bearer\<close> prefix (with its space) when present.
  These two functions are that reading, one per transport; they are not
  taken from the source and serve to state what the checkpoints accept. For
  gRPC the field is the first value of the metadata key
  \<^verbatim>\<open>authorization\<close>; for REST it is the \<^verbatim>\<open>Authorization\<close> header, an
  empty header being no credential.
\<close>

definition spec_credential :: "grpc_ctx \<Rightarrow> string option" where
  "spec_credential ctx =
     (case incoming ctx of
        None \<Rightarrow> None
      | Some md \<Rightarrow>
          (case md ''authorization'' of
             None \<Rightarrow> None
           | Some [] \<Rightarrow> None
           | Some (v # _) \<Rightarrow>
               Some (if take 7 v = ''Bearer '' then drop 7 v else v)))"

definition spec_http_credential :: "http_request \<Rightarrow> string option" where
  "spec_http_credential r =
     (if Authorization r = [] then None
      else Some (if take 7 (Authorization r) = ''Bearer '' then drop 7 (Authorization r)
                 else Authorization r))"

text \<open>The lockout check of \<^verbatim>\<open>authMiddleware\<close>, lines 85 to 88.\<close>

definition api_isLocked :: "time \<Rightarrow> Server \<Rightarrow> string \<Rightarrow> bool" where
  "api_isLocked now s ip =
     (case fmlookup (s_failedAttempts s) ip of
        None \<Rightarrow> False
      | Some info \<Rightarrow> Before now (lockedUntil info))"

subsection \<open>A crowd of clients\<close>

text \<open>
  The REST server keys its map by \<^verbatim>\<open>r.RemoteAddr\<close>, an address with its
  port. \<open>client i\<close> is the address \<^verbatim>\<open>10.0.0.1\<close> with the source port
  \<open>10000 + i\<close> written in five decimal digits, and \<open>crowd n\<close> is the map a
  server holds after each of the first \<open>n\<close> clients has failed once at
  time 0. They are the inputs of the capacity scenario, not part of the
  source.
\<close>

definition digit :: "nat \<Rightarrow> char" where
  "digit d = ''0123456789'' ! d"

fun decimal :: "nat \<Rightarrow> nat \<Rightarrow> string" where
  "decimal 0 n = []"
| "decimal (Suc k) n = decimal k (n div 10) @ [digit (n mod 10)]"

definition client :: "nat \<Rightarrow> string" where
  "client i = ''10.0.0.1:'' @ decimal 5 (10000 + i)"

definition crowd :: "nat \<Rightarrow> (string, apiAttemptInfo) fmap" where
  "crowd n =
     fmap_of_list
       (map (\<lambda>i. (client i, \<lparr>count = 1, lockedUntil = 0, lastAttempt = 0\<rparr>)) [0..<n])"


subsection \<open>Tokens\<close>

text \<open>
  \<^verbatim>\<open>hex.EncodeToString\<close>: two lower-case hexadecimal digits for each byte.
\<close>

definition hexdigit :: "nat \<Rightarrow> char" where
  "hexdigit n = ''0123456789abcdef'' ! n"

definition hex_EncodeToString :: "string \<Rightarrow> string" where
  "hex_EncodeToString bs =
     concat (map (\<lambda>b. [hexdigit (of_char b div 16), hexdigit (of_char b mod 16)]) bs)"

datatype token_error =
    RandError
  | MarshalError
  | InvalidFormat
  | InvalidSignature
  | InvalidPayload
  | InvalidClaims

text \<open>
  \<^verbatim>\<open>GenerateToken\<close>. \<open>rnd\<close> is what \<^verbatim>\<open>rand.Read\<close> did with the 32-byte
  buffer: \<open>Some\<close> of the bytes it filled in, or \<open>None\<close> for its error.
\<close>

definition GenerateToken :: "string option \<Rightarrow> token_error + string" where
  "GenerateToken rnd =
     (case rnd of
        None \<Rightarrow> Inl RandError
      | Some bytes \<Rightarrow> Inr (hex_EncodeToString bytes))"

record tokenClaims =
  claims_Token :: string
  IssuedAt :: int
  ExpiresAt :: int

text \<open>
  The functions of the Go standard library that the signed tokens go
  through are parameters of the embedding: \<^verbatim>\<open>hmac.New(sha256.New, key)\<close>
  with \<^verbatim>\<open>Write\<close> and \<^verbatim>\<open>Sum\<close>, the two directions of
  \<^verbatim>\<open>base64.RawURLEncoding\<close>, and \<^verbatim>\<open>json.Marshal\<close> and
  \<^verbatim>\<open>json.Unmarshal\<close> at the type \<^verbatim>\<open>tokenClaims\<close>. \<open>None\<close> is the
  error of a function that can fail.
\<close>

record golib =
  hmac_sha256 :: "string \<Rightarrow> string \<Rightarrow> string"
  base64url :: "string \<Rightarrow> string"
  base64url_decode :: "string \<Rightarrow> string option"
  json_Marshal :: "tokenClaims \<Rightarrow> string option"
  json_Unmarshal :: "string \<Rightarrow> tokenClaims option"

text \<open>
  What the theorems on tokens take from the documentation of these
  functions: the base64url alphabet has no dot, decoding an encoding gives
  the bytes back, and \<^verbatim>\<open>json.Unmarshal\<close> accepts what \<^verbatim>\<open>json.Marshal\<close>
  produced.
\<close>

definition golib_contract :: "golib \<Rightarrow> bool" where
  "golib_contract L \<longleftrightarrow>
     (\<forall>x. CHR ''.'' \<notin> set (base64url L x))
   \<and> (\<forall>x. base64url_decode L (base64url L x) = Some x)
   \<and> (\<forall>c p. json_Marshal L c = Some p \<longrightarrow> json_Unmarshal L p \<noteq> None)"

text \<open>
  \<^verbatim>\<open>GenerateSignedToken\<close>. \<open>now\<close> is \<^verbatim>\<open>time.Now().Unix()\<close> and
  \<open>ttl_seconds\<close> is \<^verbatim>\<open>int64(ttl.Seconds())\<close>, the whole seconds of the
  duration (the conversion goes through a float and is not modelled). The
  sum is an \<^verbatim>\<open>int64\<close>; a duration is below \<open>2 ^ 63\<close> nanoseconds, so the
  sum of a clock and its seconds cannot wrap.
\<close>

definition GenerateSignedToken ::
  "golib \<Rightarrow> string option \<Rightarrow> int \<Rightarrow> string \<Rightarrow> int \<Rightarrow> token_error + string" where
  "GenerateSignedToken L rnd now secretKey ttl_seconds =
     (case GenerateToken rnd of
        Inl e \<Rightarrow> Inl e
      | Inr raw \<Rightarrow>
          let claims = \<lparr>claims_Token = raw, IssuedAt = now, ExpiresAt = now + ttl_seconds\<rparr>
          in case json_Marshal L claims of
               None \<Rightarrow> Inl MarshalError
             | Some payload \<Rightarrow>
                 let payloadB64 = base64url L payload;
                     sig = base64url L (hmac_sha256 L secretKey payloadB64)
                 in Inr (payloadB64 @ ''.'' @ sig))"

text \<open>
  \<^verbatim>\<open>strings.SplitN(s, sep, 2)\<close> for a separator of one byte: the whole
  string when the separator does not occur, else the part before its first
  occurrence and the part after it.
\<close>

definition SplitN2 :: "string \<Rightarrow> char \<Rightarrow> string list" where
  "SplitN2 s sep =
     (if sep \<in> set s
      then [takeWhile (\<lambda>c. c \<noteq> sep) s, tl (dropWhile (\<lambda>c. c \<noteq> sep) s)]
      else [s])"

text \<open>
  \<^verbatim>\<open>ValidateSignedToken\<close>; \<open>None\<close> is the \<^verbatim>\<open>nil\<close> error. The function
  reads no clock: where the expiry check would stand, the source has a
  comment saying that tokens never expire and that the check was removed.
\<close>

definition ValidateSignedToken :: "golib \<Rightarrow> string \<Rightarrow> string \<Rightarrow> token_error option" where
  "ValidateSignedToken L tok secretKey =
     (case SplitN2 tok CHR ''.'' of
        [payloadB64, sigB64] \<Rightarrow>
          let expectedSig = base64url L (hmac_sha256 L secretKey payloadB64)
          in if ConstantTimeCompare sigB64 expectedSig \<noteq> 1 then Some InvalidSignature
             else
               (case base64url_decode L payloadB64 of
                  None \<Rightarrow> Some InvalidPayload
                | Some payload \<Rightarrow>
                    (case json_Unmarshal L payload of
                       None \<Rightarrow> Some InvalidClaims
                     | Some claims \<Rightarrow> None))
      | _ \<Rightarrow> Some InvalidFormat)"

definition ValidateToken :: "string \<Rightarrow> bool" where
  "ValidateToken tok = (TokenMinLength \<le> length tok)"

text \<open>
  The idealisation of the MAC that the tamper property rests on: under the
  key, no string that differs from \<open>p\<close> in one position has the MAC of
  \<open>p\<close>.
\<close>

definition mac_separates :: "golib \<Rightarrow> string \<Rightarrow> string \<Rightarrow> bool" where
  "mac_separates L key p \<longleftrightarrow>
     (\<forall>i < length p. \<forall>c. c \<noteq> p ! i \<longrightarrow> hmac_sha256 L key (p[i := c]) \<noteq> hmac_sha256 L key p)"

text \<open>
  A small library that meets the contract, to run the token functions on
  concrete inputs: the MAC is the key followed by the message, the encoding
  is hexadecimal, and the JSON of a claims value is its three fields between
  braces.
\<close>

definition unhexdigit :: "char \<Rightarrow> nat option" where
  "unhexdigit c =
     map_of
       [(CHR ''0'', 0), (CHR ''1'', 1), (CHR ''2'', 2), (CHR ''3'', 3),
        (CHR ''4'', 4), (CHR ''5'', 5), (CHR ''6'', 6), (CHR ''7'', 7),
        (CHR ''8'', 8), (CHR ''9'', 9), (CHR ''a'', 10), (CHR ''b'', 11),
        (CHR ''c'', 12), (CHR ''d'', 13), (CHR ''e'', 14), (CHR ''f'', 15)] c"

fun hex_DecodeString :: "string \<Rightarrow> string option" where
  "hex_DecodeString [] = Some []"
| "hex_DecodeString [a] = None"
| "hex_DecodeString (a # b # rest) =
     (case (unhexdigit a, unhexdigit b, hex_DecodeString rest) of
        (Some h, Some l, Some bs) \<Rightarrow> Some (char_of (16 * h + l) # bs)
      | _ \<Rightarrow> None)"

definition test_lib :: golib where
  "test_lib =
     \<lparr>hmac_sha256 = (\<lambda>key msg. key @ msg),
      base64url = hex_EncodeToString,
      base64url_decode = hex_DecodeString,
      json_Marshal = (\<lambda>c. Some (''{'' @ claims_Token c @ ''}'')),
      json_Unmarshal = (\<lambda>p. case p of
                                [] \<Rightarrow> None
                              | c # cs \<Rightarrow>
                                  if c = CHR ''{''
                                  then Some \<lparr>claims_Token = cs, IssuedAt = 0, ExpiresAt = 0\<rparr>
                                  else None)\<rparr>"

section \<open>Properties of the attempt tracker\<close>

lemmas go_consts =
  MaxFailedAttempts_def LockoutDuration_def Minute_def Second_def maxRecords_def
  Before_def After_def

lemmas small_card = len_def fcard_finsert_if fcard_fempty

subsection \<open>Every failure at or above the threshold locks again\<close>



subsection \<open>The periodic sweeps\<close>

text \<open>
  Claim C6, as the code has it. The sweep of the gRPC interceptor deletes a
  record if and only if its \<^verbatim>\<open>lockedUntil\<close> has passed and its count is
  below 5, or \<^verbatim>\<open>lockedUntil\<close> plus 30 minutes has passed. The sweep of
  the REST server follows another rule: it deletes a record if and only if
  its \<^verbatim>\<open>lockedUntil\<close> has passed and its \<^verbatim>\<open>lastAttempt\<close> is more than
  30 minutes old. Under both rules an identity locked at \<open>T0\<close> (count at
  least 5, \<^verbatim>\<open>lockedUntil\<close> at \<open>T0\<close> plus 15 minutes, last attempt at
  \<open>T0\<close>) is kept by a sweep at \<open>T0\<close> plus 20 minutes and deleted by a
  sweep at \<open>T0\<close> plus 46 minutes.
\<close>

theorem reap_rules:
  "fmlookup (failedAttempts (cleanupFailedAttempts now a)) ip =
     (case fmlookup (failedAttempts a) ip of
        None \<Rightarrow> None
      | Some info \<Rightarrow>
          if (lockedUntil info < now \<and> count info < 5) \<or> lockedUntil info + 30 * Minute < now
          then None else Some info)
   \<and> fmlookup (s_failedAttempts (cleanupLoop now s)) ip =
     (case fmlookup (s_failedAttempts s) ip of
        None \<Rightarrow> None
      | Some info \<Rightarrow>
          if lockedUntil info < now \<and> 30 * Minute < now - lastAttempt info
          then None else Some info)
   \<and> (fmlookup (failedAttempts a) ip = Some \<lparr>count = c, lockedUntil = T0 + 15 * Minute\<rparr> \<and> 5 \<le> c
        \<longrightarrow> fmlookup (failedAttempts (cleanupFailedAttempts (T0 + 20 * Minute) a)) ip
              = Some \<lparr>count = c, lockedUntil = T0 + 15 * Minute\<rparr>
          \<and> fmlookup (failedAttempts (cleanupFailedAttempts (T0 + 46 * Minute) a)) ip = None)
   \<and> (fmlookup (s_failedAttempts s) ip
          = Some \<lparr>count = c, lockedUntil = T0 + 15 * Minute, lastAttempt = T0\<rparr>
        \<longrightarrow> fmlookup (s_failedAttempts (cleanupLoop (T0 + 20 * Minute) s)) ip
              = Some \<lparr>count = c, lockedUntil = T0 + 15 * Minute, lastAttempt = T0\<rparr>
          \<and> fmlookup (s_failedAttempts (cleanupLoop (T0 + 46 * Minute) s)) ip = None)"
  by (auto simp: cleanupFailedAttempts_def cleanup_deletes_def cleanupLoop_def
        cleanupLoop_deletes_def go_consts split: option.splits)

theorem reap_rules_witness:
  "fmlookup (failedAttempts \<lparr>token = ''s'', requireAuth = True,
       failedAttempts = fmupd ''p'' \<lparr>count = 5, lockedUntil = 1000 + 15 * Minute\<rparr> fmempty\<rparr>) ''p''
     = Some \<lparr>count = 5, lockedUntil = 1000 + 15 * Minute\<rparr>
   \<and> (5::int) \<le> 5
   \<and> fmlookup (failedAttempts (cleanupFailedAttempts (1000 + 20 * Minute)
        \<lparr>token = ''s'', requireAuth = True,
         failedAttempts = fmupd ''p'' \<lparr>count = 5, lockedUntil = 1000 + 15 * Minute\<rparr> fmempty\<rparr>)) ''p''
     = Some \<lparr>count = 5, lockedUntil = 1000 + 15 * Minute\<rparr>
   \<and> fmlookup (failedAttempts (cleanupFailedAttempts (1000 + 46 * Minute)
        \<lparr>token = ''s'', requireAuth = True,
         failedAttempts = fmupd ''p'' \<lparr>count = 5, lockedUntil = 1000 + 15 * Minute\<rparr> fmempty\<rparr>)) ''p''
     = None
   \<and> fmlookup (s_failedAttempts \<lparr>s_token = ''s'', s_version = ''v'',
       s_failedAttempts =
         fmupd ''p'' \<lparr>count = 5, lockedUntil = 1000 + 15 * Minute, lastAttempt = 1000\<rparr> fmempty\<rparr>) ''p''
     = Some \<lparr>count = 5, lockedUntil = 1000 + 15 * Minute, lastAttempt = 1000\<rparr>
   \<and> fmlookup (s_failedAttempts (cleanupLoop (1000 + 46 * Minute)
        \<lparr>s_token = ''s'', s_version = ''v'',
         s_failedAttempts =
           fmupd ''p'' \<lparr>count = 5, lockedUntil = 1000 + 15 * Minute, lastAttempt = 1000\<rparr> fmempty\<rparr>)) ''p''
     = None"
proof -
  let ?a = "\<lparr>token = ''s'', requireAuth = True,
       failedAttempts = fmupd ''p'' \<lparr>count = 5, lockedUntil = 1000 + 15 * Minute\<rparr> fmempty\<rparr>"
  let ?s = "\<lparr>s_token = ''s'', s_version = ''v'',
       s_failedAttempts =
         fmupd ''p'' \<lparr>count = 5, lockedUntil = 1000 + 15 * Minute, lastAttempt = 1000\<rparr> fmempty\<rparr>"
  have h1: "fmlookup (failedAttempts ?a) ''p'' = Some \<lparr>count = 5, lockedUntil = 1000 + 15 * Minute\<rparr>"
    by simp
  have h2: "fmlookup (s_failedAttempts ?s) ''p''
              = Some \<lparr>count = 5, lockedUntil = 1000 + 15 * Minute, lastAttempt = 1000\<rparr>"
    by simp
  have h3: "(5::int) \<le> 5"
    by simp
  from reap_rules [where a = ?a and s = ?s and ip = "''p''" and c = 5 and ?T0.0 = 1000] h1 h2 h3
  show ?thesis by blast
qed

text \<open>
  The claim's rule is not the rule of the REST sweep: an identity that failed
  once, one minute before the sweep, has a \<^verbatim>\<open>lockedUntil\<close> in the past and
  a count below 5, and the REST sweep keeps it.
\<close>

theorem reap_rules_counterexample:
  "\<not> (fmlookup (s_failedAttempts (cleanupLoop (41 * Minute)
          (recordAPIFailedAttempt (40 * Minute) (40 * Minute)
             \<lparr>s_token = ''s'', s_version = ''v'', s_failedAttempts = fmempty\<rparr> ''p''))) ''p'' = None
       \<longleftrightarrow> ((0 < 41 * Minute \<and> (1::int) < 5) \<or> 0 + 30 * Minute < 41 * Minute))
   \<and> fmlookup (s_failedAttempts
          (recordAPIFailedAttempt (40 * Minute) (40 * Minute)
             \<lparr>s_token = ''s'', s_version = ''v'', s_failedAttempts = fmempty\<rparr> ''p'')) ''p''
       = Some \<lparr>count = 1, lockedUntil = 0, lastAttempt = 40 * Minute\<rparr>"
  by (simp add: cleanupLoop_def cleanupLoop_deletes_def recordAPIFailedAttempt_def
        apiAttemptInfo_zero_def Let_def go_consts)

subsection \<open>Sessions\<close>

text \<open>
  Claim C8. \<^verbatim>\<open>ValidateSession\<close> on a token with no session returns no
  session and no error, and leaves the manager as it was; it never returns
  an error. After \<^verbatim>\<open>CreateSession\<close>, a lookup returns the stored session
  with \<^verbatim>\<open>LastUsed\<close> set to the clock of the lookup, so that of two
  lookups the later one observes a strictly later \<^verbatim>\<open>LastUsed\<close>. A token
  that has a session keeps it through \<^verbatim>\<open>CreateSession\<close> and
  \<^verbatim>\<open>ValidateSession\<close> (the other two methods only read); only
  \<^verbatim>\<open>RevokeSession\<close> and \<^verbatim>\<open>RevokeAllSessions\<close> remove sessions.
\<close>

theorem session_lookup:
  "(fmlookup (sessions sm) tok = None \<longrightarrow> ValidateSession now sm tok = (sm, None, None))
   \<and> snd (snd (ValidateSession now sm tok)) = None
   \<and> (case CreateSession t0 sm tok ip of (sm1, s0) \<Rightarrow>
        case ValidateSession t1 sm1 tok of (sm2, r1, e1) \<Rightarrow>
        case ValidateSession t2 sm2 tok of (sm3, r2, e2) \<Rightarrow>
          r1 = Some \<lparr>Token = tok, ClientIP = ip, CreatedAt = t0, LastUsed = t1\<rparr>
          \<and> GetSessionInfo sm2 tok = r1
          \<and> r2 = Some \<lparr>Token = tok, ClientIP = ip, CreatedAt = t0, LastUsed = t2\<rparr>
          \<and> GetSessionInfo sm3 tok = r2
          \<and> (t1 < t2 \<longrightarrow> (\<exists>s1 s2. r1 = Some s1 \<and> r2 = Some s2 \<and> LastUsed s1 < LastUsed s2)))
   \<and> (\<forall>k. k |\<in>| fmdom (sessions sm) \<longrightarrow>
          k |\<in>| fmdom (sessions (fst (CreateSession now sm tok ip)))
        \<and> k |\<in>| fmdom (sessions (fst (ValidateSession now sm tok))))
   \<and> fmdom (sessions (RevokeSession sm tok)) = fmdom (sessions sm) |-| {|tok|}
   \<and> fmdom (sessions (RevokeAllSessions sm)) = {||}"
  by (auto simp: ValidateSession_def CreateSession_def GetSessionInfo_def RevokeSession_def
        RevokeAllSessions_def Let_def split: option.splits)

theorem session_lookup_witness:
  "fmlookup (sessions NewSessionManager) ''tok'' = None
   \<and> ValidateSession 5 NewSessionManager ''tok'' = (NewSessionManager, None, None)
   \<and> (3::int) < 9
   \<and> (\<exists>s1 s2.
         fst (snd (ValidateSession 3 (fst (CreateSession 1 NewSessionManager ''tok'' ''ip'')) ''tok''))
           = Some s1
       \<and> fst (snd (ValidateSession 9
            (fst (ValidateSession 3 (fst (CreateSession 1 NewSessionManager ''tok'' ''ip'')) ''tok''))
            ''tok'')) = Some s2
       \<and> LastUsed s1 < LastUsed s2)
   \<and> ''tok'' |\<in>| fmdom (sessions (fst (CreateSession 1 NewSessionManager ''tok'' ''ip'')))
   \<and> ''tok'' |\<in>| fmdom (sessions
        (fst (ValidateSession 3 (fst (CreateSession 1 NewSessionManager ''tok'' ''ip'')) ''tok'')))"
proof -
  let ?sm1 = "fst (CreateSession 1 NewSessionManager ''tok'' ''ip'')"
  have h: "fmlookup (sessions NewSessionManager) ''tok'' = None"
    by (simp add: NewSessionManager_def)
  have k: "''tok'' |\<in>| fmdom (sessions ?sm1)"
    by (simp add: CreateSession_def NewSessionManager_def Let_def)
  have lt: "(3::int) < 9"
    by simp
  from session_lookup [where sm = NewSessionManager and tok = "''tok''" and now = 5] h
  have a: "ValidateSession 5 NewSessionManager ''tok'' = (NewSessionManager, None, None)"
    by blast
  from session_lookup [where sm = ?sm1 and tok = "''tok''" and now = 3] k
  have b: "''tok'' |\<in>| fmdom (sessions (fst (ValidateSession 3 ?sm1 ''tok'')))"
    by blast
  from session_lookup [where sm = NewSessionManager and tok = "''tok''" and ?t0.0 = 1
      and ip = "''ip''" and ?t1.0 = 3 and ?t2.0 = 9] lt
  have c: "\<exists>s1 s2. fst (snd (ValidateSession 3 ?sm1 ''tok'')) = Some s1
       \<and> fst (snd (ValidateSession 9 (fst (ValidateSession 3 ?sm1 ''tok'')) ''tok'')) = Some s2
       \<and> LastUsed s1 < LastUsed s2"
    by (auto simp: case_prod_beta)
  show ?thesis using h k lt a b c
    by blast
qed

subsection \<open>Recording a failure when the map has room\<close>





subsection \<open>The lockout check comes first\<close>


text \<open>
  A lockout is not lifted by anything but time: while it lasts, the record
  survives a failure recorded for another identity, the sweep at the cap
  included, and the periodic sweep.
\<close>

lemma lock_survives:
  assumes "isLocked t a ip"
  shows "ip' \<noteq> ip \<Longrightarrow>
           fmlookup (failedAttempts (fst (recordFailedAttempt t tk a ip'))) ip
             = fmlookup (failedAttempts a) ip"
    and "fmlookup (failedAttempts (cleanupFailedAttempts t a)) ip = fmlookup (failedAttempts a) ip"
  using assms
  by (auto simp: recordFailedAttempt_def cleanupFailedAttempts_def cleanup_deletes_def
        sweepExpired_def isLocked_def Let_def Before_def After_def Minute_def Second_def
        split: option.splits if_splits)



subsection \<open>What the checkpoints accept\<close>

lemma length_Bearer: "length ''Bearer '' = 7"
  by simp

lemma HasPrefix_Bearer:
  "HasPrefix v ''Bearer '' \<longleftrightarrow> take 7 v = ''Bearer ''"
proof
  assume eq: "take 7 v = ''Bearer ''"
  then have "length (take 7 v) = 7"
    by (simp only: length_Bearer)
  then have "7 \<le> length v"
    by simp
  with eq show "HasPrefix v ''Bearer ''"
    unfolding HasPrefix_def length_Bearer by simp
next
  assume "HasPrefix v ''Bearer ''"
  then show "take 7 v = ''Bearer ''"
    unfolding HasPrefix_def length_Bearer by simp
qed

lemma TrimPrefix_Bearer:
  "TrimPrefix v ''Bearer '' = (if take 7 v = ''Bearer '' then drop 7 v else v)"
  unfolding TrimPrefix_def HasPrefix_Bearer unfolding length_Bearer by simp

text \<open>
  Claim C2, as the code has it. For a request of an identity that is not
  locked, both checkpoints let the request through if and only if its
  credential, after the prefix is stripped, equals the static secret; on a
  match the identity's record is deleted. Otherwise the failure is handed to
  \<^verbatim>\<open>recordFailedAttempt\<close> (\<^verbatim>\<open>recordAPIFailedAttempt\<close> for REST) and
  the request is rejected: by the REST middleware always as 401, by the gRPC
  interceptor as \<^verbatim>\<open>Unauthenticated\<close>, except that a mismatching credential
  whose recorded failure reaches the threshold is rejected as
  \<^verbatim>\<open>ResourceExhausted\<close>.
\<close>

theorem unlocked_request_decided_by_credential:
  "(\<not> isLocked t a (getClientIP ctx) \<longrightarrow>
      (snd (authorize t ts tk a ctx) = None \<longleftrightarrow> spec_credential ctx = Some (token a))
    \<and> (spec_credential ctx = Some (token a) \<longrightarrow>
          fst (authorize t ts tk a ctx) = resetFailedAttempts a (getClientIP ctx)
        \<and> fmlookup (failedAttempts (fst (authorize t ts tk a ctx))) (getClientIP ctx) = None)
    \<and> (spec_credential ctx \<noteq> Some (token a) \<longrightarrow>
          fst (authorize t ts tk a ctx) = fst (recordFailedAttempt ts tk a (getClientIP ctx))
        \<and> (\<exists>m. snd (authorize t ts tk a ctx)
                 = Some (Status (if spec_credential ctx \<noteq> None
                                    \<and> snd (recordFailedAttempt ts tk a (getClientIP ctx))
                                 then ResourceExhausted else Unauthenticated) m))))
   \<and> (\<not> api_isLocked t s (RemoteAddr r) \<longrightarrow>
      (snd (authMiddleware t ta tk s r) = Next \<longleftrightarrow> spec_http_credential r = Some (s_token s))
    \<and> (spec_http_credential r = Some (s_token s) \<longrightarrow>
          fst (authMiddleware t ta tk s r)
            = s\<lparr>s_failedAttempts := fmdrop (RemoteAddr r) (s_failedAttempts s)\<rparr>)
    \<and> (spec_http_credential r \<noteq> Some (s_token s) \<longrightarrow>
          fst (authMiddleware t ta tk s r) = recordAPIFailedAttempt ta tk s (RemoteAddr r)
        \<and> (\<exists>m. snd (authMiddleware t ta tk s r)
                 = Reject \<lparr>RetryAfter = None, StatusCode = StatusUnauthorized, Error = m\<rparr>)))"
proof -
  have A: "\<not> isLocked t a (getClientIP ctx) \<Longrightarrow>
      (snd (authorize t ts tk a ctx) = None \<longleftrightarrow> spec_credential ctx = Some (token a))"
    by (auto simp: authorize_def Let_def spec_credential_def md_Get_def ConstantTimeCompare_def
          TrimPrefix_Bearer HasPrefix_Bearer split: option.splits list.splits prod.splits)
  have B: "\<not> isLocked t a (getClientIP ctx) \<Longrightarrow> spec_credential ctx = Some (token a) \<Longrightarrow>
          fst (authorize t ts tk a ctx) = resetFailedAttempts a (getClientIP ctx)
        \<and> fmlookup (failedAttempts (fst (authorize t ts tk a ctx))) (getClientIP ctx) = None"
    by (auto simp: authorize_def Let_def spec_credential_def md_Get_def ConstantTimeCompare_def
          TrimPrefix_Bearer HasPrefix_Bearer resetFailedAttempts_def
          split: option.splits list.splits prod.splits if_splits)
  have C: "\<not> isLocked t a (getClientIP ctx) \<Longrightarrow> spec_credential ctx \<noteq> Some (token a) \<Longrightarrow>
          fst (authorize t ts tk a ctx) = fst (recordFailedAttempt ts tk a (getClientIP ctx))
        \<and> (\<exists>m. snd (authorize t ts tk a ctx)
                 = Some (Status (if spec_credential ctx \<noteq> None
                                    \<and> snd (recordFailedAttempt ts tk a (getClientIP ctx))
                                 then ResourceExhausted else Unauthenticated) m))"
    by (auto simp: authorize_def Let_def spec_credential_def md_Get_def ConstantTimeCompare_def
          TrimPrefix_Bearer HasPrefix_Bearer
          split: option.splits list.splits prod.splits if_splits)
  have D: "\<not> api_isLocked t s (RemoteAddr r) \<Longrightarrow>
      (snd (authMiddleware t ta tk s r) = Next \<longleftrightarrow> spec_http_credential r = Some (s_token s))"
    by (auto simp: authMiddleware_def Let_def spec_http_credential_def api_isLocked_def
          ConstantTimeCompare_def TrimPrefix_Bearer split: option.splits if_splits)
  have E: "\<not> api_isLocked t s (RemoteAddr r) \<Longrightarrow> spec_http_credential r = Some (s_token s) \<Longrightarrow>
          fst (authMiddleware t ta tk s r)
            = s\<lparr>s_failedAttempts := fmdrop (RemoteAddr r) (s_failedAttempts s)\<rparr>"
    by (auto simp: authMiddleware_def Let_def spec_http_credential_def api_isLocked_def
          ConstantTimeCompare_def TrimPrefix_Bearer split: option.splits if_splits)
  have F: "\<not> api_isLocked t s (RemoteAddr r) \<Longrightarrow> spec_http_credential r \<noteq> Some (s_token s) \<Longrightarrow>
          fst (authMiddleware t ta tk s r) = recordAPIFailedAttempt ta tk s (RemoteAddr r)
        \<and> (\<exists>m. snd (authMiddleware t ta tk s r)
                 = Reject \<lparr>RetryAfter = None, StatusCode = StatusUnauthorized, Error = m\<rparr>)"
    by (auto simp: authMiddleware_def Let_def spec_http_credential_def api_isLocked_def
          ConstantTimeCompare_def TrimPrefix_Bearer split: option.splits if_splits)
  show ?thesis
    using A B C D E F by blast
qed

theorem unlocked_request_decided_by_credential_witness:
  "\<not> isLocked 10 \<lparr>token = ''correct-token'', requireAuth = True, failedAttempts = fmempty\<rparr>
        (getClientIP \<lparr>peer = Some ''p'', incoming = Some [''authorization'' \<mapsto> [''Bearer correct-token'']]\<rparr>)
   \<and> spec_credential \<lparr>peer = Some ''p'', incoming = Some [''authorization'' \<mapsto> [''Bearer correct-token'']]\<rparr>
        = Some ''correct-token''
   \<and> snd (authorize 10 0 10 \<lparr>token = ''correct-token'', requireAuth = True, failedAttempts = fmempty\<rparr>
        \<lparr>peer = Some ''p'', incoming = Some [''authorization'' \<mapsto> [''Bearer correct-token'']]\<rparr>) = None
   \<and> spec_credential \<lparr>peer = Some ''p'', incoming = Some [''authorization'' \<mapsto> [''bearer correct-token'']]\<rparr>
        \<noteq> Some ''correct-token''
   \<and> fst (authorize 10 0 10 \<lparr>token = ''correct-token'', requireAuth = True, failedAttempts = fmempty\<rparr>
        \<lparr>peer = Some ''p'', incoming = Some [''authorization'' \<mapsto> [''bearer correct-token'']]\<rparr>)
       = \<lparr>token = ''correct-token'', requireAuth = True,
          failedAttempts = fmupd ''p'' \<lparr>count = 1, lockedUntil = 0\<rparr> fmempty\<rparr>
   \<and> \<not> api_isLocked 10 \<lparr>s_token = ''correct-token'', s_version = ''v'', s_failedAttempts = fmempty\<rparr>
        (RemoteAddr \<lparr>RemoteAddr = ''p'', Authorization = ''Bearer correct-token''\<rparr>)
   \<and> spec_http_credential \<lparr>RemoteAddr = ''p'', Authorization = ''Bearer correct-token''\<rparr>
        = Some ''correct-token''
   \<and> snd (authMiddleware 10 10 10
        \<lparr>s_token = ''correct-token'', s_version = ''v'', s_failedAttempts = fmempty\<rparr>
        \<lparr>RemoteAddr = ''p'', Authorization = ''Bearer correct-token''\<rparr>) = Next
   \<and> spec_http_credential \<lparr>RemoteAddr = ''p'', Authorization = ''wrong''\<rparr> \<noteq> Some ''correct-token''
   \<and> fst (authMiddleware 10 10 10
        \<lparr>s_token = ''correct-token'', s_version = ''v'', s_failedAttempts = fmempty\<rparr>
        \<lparr>RemoteAddr = ''p'', Authorization = ''wrong''\<rparr>)
       = \<lparr>s_token = ''correct-token'', s_version = ''v'',
          s_failedAttempts = fmupd ''p'' \<lparr>count = 1, lockedUntil = 0, lastAttempt = 10\<rparr> fmempty\<rparr>"
proof -
  let ?a = "\<lparr>token = ''correct-token'', requireAuth = True, failedAttempts = fmempty\<rparr>"
  let ?good = "\<lparr>peer = Some ''p'', incoming = Some [''authorization'' \<mapsto> [''Bearer correct-token'']]\<rparr>"
  let ?bad = "\<lparr>peer = Some ''p'', incoming = Some [''authorization'' \<mapsto> [''bearer correct-token'']]\<rparr>"
  let ?s = "\<lparr>s_token = ''correct-token'', s_version = ''v'', s_failedAttempts = fmempty\<rparr>"
  let ?rgood = "\<lparr>RemoteAddr = ''p'', Authorization = ''Bearer correct-token''\<rparr>"
  let ?rbad = "\<lparr>RemoteAddr = ''p'', Authorization = ''wrong''\<rparr>"
  have u1: "\<not> isLocked 10 ?a (getClientIP ?good)" and u2: "\<not> isLocked 10 ?a (getClientIP ?bad)"
    by (simp_all add: isLocked_def)
  have u3: "\<not> api_isLocked 10 ?s (RemoteAddr ?rgood)" and u4: "\<not> api_isLocked 10 ?s (RemoteAddr ?rbad)"
    by (simp_all add: api_isLocked_def)
  have g1: "spec_credential ?good = Some (token ?a)"
    by (simp add: spec_credential_def)
  have g2: "spec_credential ?bad \<noteq> Some (token ?a)"
    by (simp add: spec_credential_def)
  have g3: "spec_http_credential ?rgood = Some (s_token ?s)"
    by (simp add: spec_http_credential_def)
  have g4: "spec_http_credential ?rbad \<noteq> Some (s_token ?s)"
    by (simp add: spec_http_credential_def)
  note good = unlocked_request_decided_by_credential
      [where a = ?a and ctx = ?good and t = 10 and ts = 0 and tk = 10
         and s = ?s and r = ?rgood and ta = 10]
  note bad = unlocked_request_decided_by_credential
      [where a = ?a and ctx = ?bad and t = 10 and ts = 0 and tk = 10
         and s = ?s and r = ?rbad and ta = 10]
  from good u1 g1 have a1: "snd (authorize 10 0 10 ?a ?good) = None"
    by blast
  from good u3 g3 have a2: "snd (authMiddleware 10 10 10 ?s ?rgood) = Next"
    by blast
  from bad u2 g2
  have a3: "fst (authorize 10 0 10 ?a ?bad) = fst (recordFailedAttempt 0 10 ?a (getClientIP ?bad))"
    by blast
  from bad u4 g4
  have a4: "fst (authMiddleware 10 10 10 ?s ?rbad) = recordAPIFailedAttempt 10 10 ?s (RemoteAddr ?rbad)"
    by blast
  have v3: "fst (recordFailedAttempt 0 10 ?a (getClientIP ?bad))
              = \<lparr>token = ''correct-token'', requireAuth = True,
                 failedAttempts = fmupd ''p'' \<lparr>count = 1, lockedUntil = 0\<rparr> fmempty\<rparr>"
    by (simp add: recordFailedAttempt_def Let_def small_card attemptInfo_zero_def getClientIP_def
          MaxFailedAttempts_def maxRecords_def)
  have v4: "recordAPIFailedAttempt 10 10 ?s (RemoteAddr ?rbad)
              = \<lparr>s_token = ''correct-token'', s_version = ''v'',
                 s_failedAttempts = fmupd ''p'' \<lparr>count = 1, lockedUntil = 0, lastAttempt = 10\<rparr> fmempty\<rparr>"
    by (simp add: recordAPIFailedAttempt_def Let_def apiAttemptInfo_zero_def)
  show ?thesis
    using u1 u3 g1 g2 g3 g4 a1 a2 a3 a4 v3 v4 by simp
qed

text \<open>
  The claim has every mismatch of an unlocked identity rejected as
  unauthenticated. In the gRPC interceptor the mismatch that brings the count
  from 4 to 5 is rejected as \<^verbatim>\<open>ResourceExhausted\<close> (lines 228 to 231).
\<close>

theorem unauthenticated_on_mismatch_counterexample:
  "\<not> isLocked 10
       \<lparr>token = ''correct-token'', requireAuth = True,
        failedAttempts = fmupd ''p'' \<lparr>count = 4, lockedUntil = 0\<rparr> fmempty\<rparr>
       (getClientIP \<lparr>peer = Some ''p'', incoming = Some [''authorization'' \<mapsto> [''wrong'']]\<rparr>)
   \<and> spec_credential \<lparr>peer = Some ''p'', incoming = Some [''authorization'' \<mapsto> [''wrong'']]\<rparr>
       = Some ''wrong''
   \<and> snd (authorize 10 0 10
       \<lparr>token = ''correct-token'', requireAuth = True,
        failedAttempts = fmupd ''p'' \<lparr>count = 4, lockedUntil = 0\<rparr> fmempty\<rparr>
       \<lparr>peer = Some ''p'', incoming = Some [''authorization'' \<mapsto> [''wrong'']]\<rparr>)
       = Some (Status ResourceExhausted TooManyAccountLocked)
   \<and> status_code (Status ResourceExhausted TooManyAccountLocked) \<noteq> Unauthenticated"
  by (simp add: authorize_def isLocked_def getClientIP_def md_Get_def spec_credential_def
        HasPrefix_def TrimPrefix_def ConstantTimeCompare_def recordFailedAttempt_def Let_def
        small_card go_consts)

subsection \<open>The classes and the messages of a rejection\<close>

text \<open>
  Claim C4, as the code has it. A request arriving during a lockout is
  rejected in a class of its own: the gRPC interceptor returns the status
  \<^verbatim>\<open>ResourceExhausted\<close> with its message, the REST middleware answers 429
  with the header \<^verbatim>\<open>Retry-After: 900\<close>. A request of an unlocked identity
  that is rejected for a missing or a wrong credential is in the class
  \<^verbatim>\<open>Unauthenticated\<close> (401 for REST), apart from the gRPC mismatch whose
  recorded failure reaches the threshold; the message names the check that
  failed: metadata missing, token missing or token invalid for gRPC,
  header missing or token invalid for REST.
\<close>

theorem rejection_classes:
  "(isLocked t a (getClientIP ctx) \<longrightarrow>
      authorize t ts tk a ctx = (a, Some (Status ResourceExhausted TooManyRetryLater)))
   \<and> (api_isLocked t s (RemoteAddr r) \<longrightarrow>
      authMiddleware t ta tk s r =
        (s, Reject \<lparr>RetryAfter = Some ''900'', StatusCode = 429,
                    Error = ''Too many failed attempts''\<rparr>))
   \<and> (\<not> isLocked t a (getClientIP ctx) \<longrightarrow>
      snd (authorize t ts tk a ctx) =
        (case spec_credential ctx of
           None \<Rightarrow>
             Some (Status Unauthenticated
                     (if incoming ctx = None then MissingMetadata else MissingToken))
         | Some c \<Rightarrow>
             if c = token a then None
             else if snd (recordFailedAttempt ts tk a (getClientIP ctx))
             then Some (Status ResourceExhausted TooManyAccountLocked)
             else Some (Status Unauthenticated InvalidToken)))
   \<and> (\<not> api_isLocked t s (RemoteAddr r) \<longrightarrow>
      snd (authMiddleware t ta tk s r) =
        (case spec_http_credential r of
           None \<Rightarrow>
             Reject \<lparr>RetryAfter = None, StatusCode = 401,
                     Error = ''Missing authorization header''\<rparr>
         | Some c \<Rightarrow>
             if c = s_token s then Next
             else Reject \<lparr>RetryAfter = None, StatusCode = 401, Error = ''Invalid token''\<rparr>))"
proof -
  have A: "isLocked t a (getClientIP ctx) \<Longrightarrow>
      authorize t ts tk a ctx = (a, Some (Status ResourceExhausted TooManyRetryLater))"
    by (simp add: authorize_def Let_def)
  have B: "api_isLocked t s (RemoteAddr r) \<Longrightarrow>
      authMiddleware t ta tk s r =
        (s, Reject \<lparr>RetryAfter = Some ''900'', StatusCode = 429,
                    Error = ''Too many failed attempts''\<rparr>)"
    by (simp add: authMiddleware_def api_isLocked_def Let_def StatusTooManyRequests_def)
  have C: "\<not> isLocked t a (getClientIP ctx) \<Longrightarrow>
      snd (authorize t ts tk a ctx) =
        (case spec_credential ctx of
           None \<Rightarrow>
             Some (Status Unauthenticated
                     (if incoming ctx = None then MissingMetadata else MissingToken))
         | Some c \<Rightarrow>
             if c = token a then None
             else if snd (recordFailedAttempt ts tk a (getClientIP ctx))
             then Some (Status ResourceExhausted TooManyAccountLocked)
             else Some (Status Unauthenticated InvalidToken))"
    by (auto simp: authorize_def Let_def spec_credential_def md_Get_def ConstantTimeCompare_def
          TrimPrefix_Bearer HasPrefix_Bearer
          split: option.splits list.splits prod.splits if_splits)
  have D: "\<not> api_isLocked t s (RemoteAddr r) \<Longrightarrow>
      snd (authMiddleware t ta tk s r) =
        (case spec_http_credential r of
           None \<Rightarrow>
             Reject \<lparr>RetryAfter = None, StatusCode = 401,
                     Error = ''Missing authorization header''\<rparr>
         | Some c \<Rightarrow>
             if c = s_token s then Next
             else Reject \<lparr>RetryAfter = None, StatusCode = 401, Error = ''Invalid token''\<rparr>)"
    by (auto simp: authMiddleware_def Let_def spec_http_credential_def api_isLocked_def
          ConstantTimeCompare_def TrimPrefix_Bearer StatusUnauthorized_def
          split: option.splits if_splits)
  show ?thesis
    using A B C D by blast
qed

theorem rejection_classes_witness:
  "isLocked 10
     \<lparr>token = ''k'', requireAuth = True,
      failedAttempts = fmupd ''p'' \<lparr>count = 5, lockedUntil = 99\<rparr> fmempty\<rparr>
     (getClientIP \<lparr>peer = Some ''p'', incoming = Some [''authorization'' \<mapsto> [''k'']]\<rparr>)
   \<and> snd (authorize 10 0 10
       \<lparr>token = ''k'', requireAuth = True,
        failedAttempts = fmupd ''p'' \<lparr>count = 5, lockedUntil = 99\<rparr> fmempty\<rparr>
       \<lparr>peer = Some ''p'', incoming = Some [''authorization'' \<mapsto> [''k'']]\<rparr>)
       = Some (Status ResourceExhausted TooManyRetryLater)
   \<and> api_isLocked 10
       \<lparr>s_token = ''k'', s_version = ''v'',
        s_failedAttempts = fmupd ''p'' \<lparr>count = 5, lockedUntil = 99, lastAttempt = 9\<rparr> fmempty\<rparr>
       (RemoteAddr \<lparr>RemoteAddr = ''p'', Authorization = ''k''\<rparr>)
   \<and> snd (authMiddleware 10 10 10
       \<lparr>s_token = ''k'', s_version = ''v'',
        s_failedAttempts = fmupd ''p'' \<lparr>count = 5, lockedUntil = 99, lastAttempt = 9\<rparr> fmempty\<rparr>
       \<lparr>RemoteAddr = ''p'', Authorization = ''k''\<rparr>)
       = Reject \<lparr>RetryAfter = Some ''900'', StatusCode = 429, Error = ''Too many failed attempts''\<rparr>
   \<and> \<not> isLocked 10 \<lparr>token = ''k'', requireAuth = True, failedAttempts = fmempty\<rparr>
       (getClientIP \<lparr>peer = Some ''p'', incoming = None\<rparr>)
   \<and> snd (authorize 10 0 10 \<lparr>token = ''k'', requireAuth = True, failedAttempts = fmempty\<rparr>
       \<lparr>peer = Some ''p'', incoming = None\<rparr>)
       = Some (Status Unauthenticated MissingMetadata)
   \<and> \<not> api_isLocked 10 \<lparr>s_token = ''k'', s_version = ''v'', s_failedAttempts = fmempty\<rparr>
       (RemoteAddr \<lparr>RemoteAddr = ''p'', Authorization = ''''\<rparr>)
   \<and> snd (authMiddleware 10 10 10 \<lparr>s_token = ''k'', s_version = ''v'', s_failedAttempts = fmempty\<rparr>
       \<lparr>RemoteAddr = ''p'', Authorization = ''''\<rparr>)
       = Reject \<lparr>RetryAfter = None, StatusCode = 401, Error = ''Missing authorization header''\<rparr>"
proof -
  let ?al = "\<lparr>token = ''k'', requireAuth = True,
      failedAttempts = fmupd ''p'' \<lparr>count = 5, lockedUntil = 99\<rparr> fmempty\<rparr>"
  let ?cl = "\<lparr>peer = Some ''p'', incoming = Some [''authorization'' \<mapsto> [''k'']]\<rparr>"
  let ?sl = "\<lparr>s_token = ''k'', s_version = ''v'',
        s_failedAttempts = fmupd ''p'' \<lparr>count = 5, lockedUntil = 99, lastAttempt = 9\<rparr> fmempty\<rparr>"
  let ?rl = "\<lparr>RemoteAddr = ''p'', Authorization = ''k''\<rparr>"
  let ?a = "\<lparr>token = ''k'', requireAuth = True, failedAttempts = fmempty\<rparr>"
  let ?c = "\<lparr>peer = Some ''p'', incoming = None\<rparr>"
  let ?s = "\<lparr>s_token = ''k'', s_version = ''v'', s_failedAttempts = fmempty\<rparr>"
  let ?r = "\<lparr>RemoteAddr = ''p'', Authorization = ''''\<rparr>"
  have l1: "isLocked 10 ?al (getClientIP ?cl)"
    by (simp add: isLocked_def getClientIP_def Before_def)
  have l2: "api_isLocked 10 ?sl (RemoteAddr ?rl)"
    by (simp add: api_isLocked_def Before_def)
  have u1: "\<not> isLocked 10 ?a (getClientIP ?c)"
    by (simp add: isLocked_def)
  have u2: "\<not> api_isLocked 10 ?s (RemoteAddr ?r)"
    by (simp add: api_isLocked_def)
  note locked = rejection_classes [where a = ?al and ctx = ?cl and s = ?sl and r = ?rl
      and t = 10 and ts = 0 and tk = 10 and ta = 10]
  note unlocked = rejection_classes [where a = ?a and ctx = ?c and s = ?s and r = ?r
      and t = 10 and ts = 0 and tk = 10 and ta = 10]
  from locked l1 have a1: "authorize 10 0 10 ?al ?cl
      = (?al, Some (Status ResourceExhausted TooManyRetryLater))"
    by blast
  from locked l2 have a2: "authMiddleware 10 10 10 ?sl ?rl
      = (?sl, Reject \<lparr>RetryAfter = Some ''900'', StatusCode = 429,
                      Error = ''Too many failed attempts''\<rparr>)"
    by blast
  from unlocked u1 have a3: "snd (authorize 10 0 10 ?a ?c) =
        (case spec_credential ?c of
           None \<Rightarrow>
             Some (Status Unauthenticated
                     (if incoming ?c = None then MissingMetadata else MissingToken))
         | Some c \<Rightarrow>
             if c = token ?a then None
             else if snd (recordFailedAttempt 0 10 ?a (getClientIP ?c))
             then Some (Status ResourceExhausted TooManyAccountLocked)
             else Some (Status Unauthenticated InvalidToken))"
    by blast
  from unlocked u2 have a4: "snd (authMiddleware 10 10 10 ?s ?r) =
        (case spec_http_credential ?r of
           None \<Rightarrow>
             Reject \<lparr>RetryAfter = None, StatusCode = 401,
                     Error = ''Missing authorization header''\<rparr>
         | Some c \<Rightarrow>
             if c = s_token ?s then Next
             else Reject \<lparr>RetryAfter = None, StatusCode = 401, Error = ''Invalid token''\<rparr>)"
    by blast
  have b3: "snd (authorize 10 0 10 ?a ?c) = Some (Status Unauthenticated MissingMetadata)"
    unfolding a3 by (simp add: spec_credential_def)
  have b4: "snd (authMiddleware 10 10 10 ?s ?r)
      = Reject \<lparr>RetryAfter = None, StatusCode = 401, Error = ''Missing authorization header''\<rparr>"
    unfolding a4 by (simp add: spec_http_credential_def)
  show ?thesis
    using l1 l2 u1 u2 a1 a2 b3 b4 by simp
qed

text \<open>
  The claim has one message for every missing or invalid credential. Both
  transports answer a missing credential and a wrong one with different
  messages.
\<close>

theorem uniform_message_counterexample:
  "snd (authMiddleware 10 10 10 \<lparr>s_token = ''k'', s_version = ''v'', s_failedAttempts = fmempty\<rparr>
       \<lparr>RemoteAddr = ''p'', Authorization = ''''\<rparr>)
     = Reject \<lparr>RetryAfter = None, StatusCode = 401, Error = ''Missing authorization header''\<rparr>
   \<and> snd (authMiddleware 10 10 10 \<lparr>s_token = ''k'', s_version = ''v'', s_failedAttempts = fmempty\<rparr>
       \<lparr>RemoteAddr = ''p'', Authorization = ''wrong''\<rparr>)
     = Reject \<lparr>RetryAfter = None, StatusCode = 401, Error = ''Invalid token''\<rparr>
   \<and> ''Missing authorization header'' \<noteq> ''Invalid token''
   \<and> snd (authorize 10 0 10 \<lparr>token = ''k'', requireAuth = True, failedAttempts = fmempty\<rparr>
       \<lparr>peer = Some ''p'', incoming = Some Map.empty\<rparr>)
     = Some (Status Unauthenticated MissingToken)
   \<and> snd (authorize 10 0 10 \<lparr>token = ''k'', requireAuth = True, failedAttempts = fmempty\<rparr>
       \<lparr>peer = Some ''p'', incoming = Some [''authorization'' \<mapsto> [''wrong'']]\<rparr>)
     = Some (Status Unauthenticated InvalidToken)
   \<and> status_message (Status Unauthenticated MissingToken)
       \<noteq> status_message (Status Unauthenticated InvalidToken)"
  by (simp add: authMiddleware_def authorize_def isLocked_def getClientIP_def md_Get_def
        HasPrefix_def TrimPrefix_def ConstantTimeCompare_def recordFailedAttempt_def
        recordAPIFailedAttempt_def Let_def small_card go_consts StatusUnauthorized_def
        attemptInfo_zero_def)

subsection \<open>The capacity guard\<close>

text \<open>
  The gRPC interceptor keeps its map at 10000 identities or fewer. When the
  map is at the cap and stays there after the sweep, the failure is dropped:
  the call returns \<open>False\<close> and, the map having been within the cap, the
  sweep has deleted nothing.
\<close>

lemma len_fmfilter_le: "len (fmfilter P m) \<le> len m"
  unfolding len_def by (rule fcard_mono) auto

lemma len_fmdrop_le: "len (fmdrop k m) \<le> len m"
  unfolding len_def by (rule fcard_mono) auto

lemma len_fmupd_le: "len (fmupd k v m) \<le> Suc (len m)"
  by (simp add: len_def fcard_finsert_if)

lemma recordFailedAttempt_within_cap:
  assumes "len (failedAttempts a) \<le> maxRecords"
  shows "len (failedAttempts (fst (recordFailedAttempt ts tk a ip))) \<le> maxRecords"
proof -
  let ?m0 = "failedAttempts a"
  let ?m1 = "if maxRecords \<le> len ?m0 then sweepExpired ts ?m0 else ?m0"
  show ?thesis
  proof (cases "maxRecords \<le> len ?m0 \<and> maxRecords \<le> len ?m1")
    case True
    then have "fst (recordFailedAttempt ts tk a ip) = a\<lparr>failedAttempts := ?m1\<rparr>"
      by (auto simp: recordFailedAttempt_def Let_def split: if_splits)
    moreover have "len ?m1 \<le> len ?m0"
      by (simp add: sweepExpired_def len_fmfilter_le)
    ultimately show ?thesis
      using assms by simp
  next
    case False
    then have room: "len ?m1 < maxRecords"
      by (auto split: if_splits)
    have "\<exists>v. failedAttempts (fst (recordFailedAttempt ts tk a ip)) = fmupd ip v ?m1"
      using False
      by (auto simp: recordFailedAttempt_def Let_def split: option.splits)
    then obtain v where "failedAttempts (fst (recordFailedAttempt ts tk a ip)) = fmupd ip v ?m1"
      by blast
    then show ?thesis
      using room len_fmupd_le [of ip v ?m1] by simp
  qed
qed

lemma recordFailedAttempt_dropped:
  assumes "len (failedAttempts a) \<le> maxRecords"
      and "maxRecords \<le> len (failedAttempts a)"
      and "maxRecords \<le> len (sweepExpired ts (failedAttempts a))"
  shows "recordFailedAttempt ts tk a ip = (a, False)"
proof -
  have sub: "fmdom (sweepExpired ts (failedAttempts a)) |\<subseteq>| fmdom (failedAttempts a)"
    by (auto simp: sweepExpired_def)
  have "fcard (fmdom (failedAttempts a)) \<le> fcard (fmdom (sweepExpired ts (failedAttempts a)))"
    using assms by (simp add: len_def)
  with sub have "fmdom (sweepExpired ts (failedAttempts a)) = fmdom (failedAttempts a)"
    by (rule fcard_seteq)
  then have "sweepExpired ts (failedAttempts a) = failedAttempts a"
    unfolding sweepExpired_def
    by (metis (no_types, lifting) fmfilter_true fmlookup_dom_iff fmlookup_filter option.distinct(1))
  with assms show ?thesis
    by (simp add: recordFailedAttempt_def Let_def)
qed

text \<open>The REST server has no such guard: a new identity always adds a record.\<close>

lemma recordAPIFailedAttempt_grows:
  assumes "fmlookup (s_failedAttempts s) ip = None"
  shows "len (s_failedAttempts (recordAPIFailedAttempt ta tk s ip)) = Suc (len (s_failedAttempts s))"
  using assms
  by (simp add: recordAPIFailedAttempt_def Let_def len_def fcard_finsert_if fmdom_notI)

lemma digit_inj:
  assumes "d < 10" and "e < 10" and "digit d = digit e"
  shows "d = e"
proof -
  have "distinct ''0123456789''"
    by simp
  moreover have "d < length ''0123456789''" and "e < length ''0123456789''"
    using assms(1,2) by simp_all
  ultimately show ?thesis
    using assms(3) unfolding digit_def by (simp only: nth_eq_iff_index_eq)
qed

lemma length_decimal: "length (decimal k n) = k"
  by (induction k arbitrary: n) simp_all

lemma decimal_inj:
  "n < 10 ^ k \<Longrightarrow> m < 10 ^ k \<Longrightarrow> decimal k n = decimal k m \<Longrightarrow> n = m"
proof (induction k arbitrary: n m)
  case 0
  then show ?case by simp
next
  case (Suc k)
  from Suc.prems(3) have hi: "decimal k (n div 10) = decimal k (m div 10)"
    and lo: "digit (n mod 10) = digit (m mod 10)"
    by (simp_all add: length_decimal)
  have "n div 10 < 10 ^ k" "m div 10 < 10 ^ k"
    using Suc.prems(1,2) by (simp_all add: less_mult_imp_div_less mult.commute)
  with hi have d: "n div 10 = m div 10"
    by (rule Suc.IH [rotated 2])
  from lo have r: "n mod 10 = m mod 10"
    by (intro digit_inj) simp_all
  from d r show ?case
    by (metis div_mult_mod_eq)
qed

lemma decimal5:
  "decimal 5 n = [digit (n div 10000 mod 10), digit (n div 1000 mod 10), digit (n div 100 mod 10),
                  digit (n div 10 mod 10), digit (n mod 10)]"
proof -
  have five: "(5::nat) = Suc (Suc (Suc (Suc (Suc 0))))"
    by simp
  show ?thesis
    unfolding five by (simp add: div_mult2_eq [symmetric])
qed

lemma client_examples:
  "client 0 = ''10.0.0.1:10000''"
  "client 9999 = ''10.0.0.1:19999''"
  "client 10000 = ''10.0.0.1:20000''"
  by (simp_all add: client_def decimal5 digit_def)

lemma client_inj:
  assumes "i < 90000" and "j < 90000" and "client i = client j"
  shows "i = j"
proof -
  have p: "(10::nat) ^ 5 = 100000"
    by simp
  have "10000 + i < 10 ^ 5" and "10000 + j < 10 ^ 5"
    unfolding p using assms(1,2) by linarith+
  moreover have "decimal 5 (10000 + i) = decimal 5 (10000 + j)"
    using assms(3) unfolding client_def by (rule same_append_eq [THEN iffD1])
  ultimately have "10000 + i = 10000 + j"
    by (rule decimal_inj)
  then show ?thesis
    by linarith
qed

lemma len_crowd:
  assumes "n \<le> 90000"
  shows "len (crowd n) = n"
proof -
  have inj: "inj_on client {0..<n}"
    using assms by (intro inj_onI client_inj) simp_all
  have "fmdom (crowd n) = fset_of_list (map client [0..<n])"
    by (simp add: crowd_def comp_def)
  then have "len (crowd n) = card (set (map client [0..<n]))"
    by (simp add: len_def fcard.rep_eq fset_of_list.rep_eq)
  also have "\<dots> = length (map client [0..<n])"
    by (rule distinct_card) (simp add: distinct_map inj)
  finally show ?thesis
    by simp
qed

lemma map_of_constant:
  "map_of (map (\<lambda>i. (f i, c)) xs) x = (if x \<in> f ` set xs then Some c else None)"
  by (induction xs) auto

lemma crowd_lookup:
  "fmlookup (crowd n) x =
     (if x \<in> client ` {0..<n} then Some \<lparr>count = 1, lockedUntil = 0, lastAttempt = 0\<rparr>
      else None)"
  by (simp add: crowd_def fmlookup_of_list map_of_constant)

lemma crowd_fresh:
  assumes "n \<le> k" and "k < 90000"
  shows "fmlookup (crowd n) (client k) = None"
proof -
  have "client k \<notin> client ` {0..<n}"
  proof
    assume "client k \<in> client ` {0..<n}"
    then obtain i where "i < n" and "client k = client i"
      by auto
    with assms client_inj [of k i] show False
      by simp
  qed
  then show ?thesis
    by (simp add: crowd_lookup)
qed

lemma crowd_Suc:
  assumes "n < 90000"
  shows "recordAPIFailedAttempt 0 0 \<lparr>s_token = k, s_version = v, s_failedAttempts = crowd n\<rparr> (client n)
           = \<lparr>s_token = k, s_version = v, s_failedAttempts = crowd (Suc n)\<rparr>"
proof -
  have fresh: "fmlookup (crowd n) (client n) = None"
    using assms by (intro crowd_fresh) simp_all
  have "fmupd (client n) \<lparr>count = 1, lockedUntil = 0, lastAttempt = 0\<rparr> (crowd n) = crowd (Suc n)"
  proof (rule fmap_ext)
    fix x
    show "fmlookup (fmupd (client n) \<lparr>count = 1, lockedUntil = 0, lastAttempt = 0\<rparr> (crowd n)) x
            = fmlookup (crowd (Suc n)) x"
      by (simp add: crowd_lookup atLeast0_lessThan_Suc)
  qed
  with fresh show ?thesis
    by (simp add: recordAPIFailedAttempt_def Let_def apiAttemptInfo_zero_def)
qed

text \<open>
  Claim C5 on the REST server. The server holds one record for each of the
  10000 clients \<open>client 0\<close> to \<open>client 9999\<close>. A request with a wrong
  token arrives from \<open>client 10000\<close>: the middleware records the failure
  and the map holds 10001 identities.
\<close>

theorem rest_map_exceeds_cap:
  "len (s_failedAttempts \<lparr>s_token = ''k'', s_version = ''v'', s_failedAttempts = crowd 10000\<rparr>)
     = 10000
   \<and> len (s_failedAttempts (fst (authMiddleware Second Second Second
          \<lparr>s_token = ''k'', s_version = ''v'', s_failedAttempts = crowd 10000\<rparr>
          \<lparr>RemoteAddr = client 10000, Authorization = ''wrong''\<rparr>))) = 10001
   \<and> maxRecords < 10001"
proof -
  let ?s = "\<lparr>s_token = ''k'', s_version = ''v'', s_failedAttempts = crowd 10000\<rparr>"
  let ?r = "\<lparr>RemoteAddr = client 10000, Authorization = ''wrong''\<rparr>"
  have n: "len (s_failedAttempts ?s) = 10000"
    by (simp add: len_crowd)
  have fresh: "fmlookup (s_failedAttempts ?s) (client 10000) = None"
    by (simp add: crowd_fresh)
  have "fst (authMiddleware Second Second Second ?s ?r)
          = recordAPIFailedAttempt Second Second ?s (client 10000)"
    using fresh
    by (simp add: authMiddleware_def Let_def TrimPrefix_def HasPrefix_def ConstantTimeCompare_def)
  then have "len (s_failedAttempts (fst (authMiddleware Second Second Second ?s ?r)))
               = Suc (len (s_failedAttempts ?s))"
    using recordAPIFailedAttempt_grows [OF fresh] by simp
  with n show ?thesis
    by (simp add: maxRecords_def)
qed

subsection \<open>The test library meets the contract\<close>

lemma unhexdigit_hexdigit:
  assumes "k < 16"
  shows "unhexdigit (hexdigit k) = Some k"
proof -
  from assms
  have "k = 0 \<or> k = 1 \<or> k = 2 \<or> k = 3 \<or> k = 4 \<or> k = 5 \<or> k = 6 \<or> k = 7
      \<or> k = 8 \<or> k = 9 \<or> k = 10 \<or> k = 11 \<or> k = 12 \<or> k = 13 \<or> k = 14 \<or> k = 15"
    by presburger
  then show ?thesis
    by (elim disjE) (simp_all add: hexdigit_def unhexdigit_def)
qed

lemma hexdigit_no_dot:
  assumes "k < 16"
  shows "hexdigit k \<noteq> CHR ''.''"
proof -
  from assms
  have "k = 0 \<or> k = 1 \<or> k = 2 \<or> k = 3 \<or> k = 4 \<or> k = 5 \<or> k = 6 \<or> k = 7
      \<or> k = 8 \<or> k = 9 \<or> k = 10 \<or> k = 11 \<or> k = 12 \<or> k = 13 \<or> k = 14 \<or> k = 15"
    by presburger
  then show ?thesis
    by (elim disjE) (simp_all add: hexdigit_def)
qed

lemma of_char_div_16: "(of_char b :: nat) div 16 < 16"
proof -
  have "(of_char b :: nat) < 256"
    by simp
  then show ?thesis
    by linarith
qed

lemma hex_no_dot: "CHR ''.'' \<notin> set (hex_EncodeToString bs)"
proof (induction bs)
  case Nil
  show ?case by (simp add: hex_EncodeToString_def)
next
  case (Cons b bs)
  have "CHR ''.'' \<noteq> hexdigit (of_char b div 16)" and "CHR ''.'' \<noteq> hexdigit (of_char b mod 16)"
    by (rule hexdigit_no_dot [THEN not_sym], simp add: of_char_div_16)+
  with Cons show ?case
    by (simp add: hex_EncodeToString_def)
qed

lemma hex_roundtrip: "hex_DecodeString (hex_EncodeToString bs) = Some bs"
proof (induction bs)
  case Nil
  show ?case by (simp add: hex_EncodeToString_def)
next
  case (Cons b bs)
  have "char_of (16 * (of_char b div 16) + of_char b mod 16 :: nat) = b"
    by simp
  with Cons show ?case
    by (simp add: hex_EncodeToString_def unhexdigit_hexdigit of_char_div_16)
qed

lemma test_lib_contract: "golib_contract test_lib"
  by (simp add: golib_contract_def test_lib_def hex_no_dot hex_roundtrip)

subsection \<open>Signed tokens\<close>

lemma SplitN2_first:
  assumes "sep \<notin> set p"
  shows "SplitN2 (p @ sep # s) sep = [p, s]"
proof -
  have "takeWhile (\<lambda>c. c \<noteq> sep) (p @ sep # s) = p"
    using assms by (induction p) auto
  moreover have "dropWhile (\<lambda>c. c \<noteq> sep) (p @ sep # s) = sep # s"
    using assms by (induction p) auto
  ultimately show ?thesis
    by (simp add: SplitN2_def)
qed

lemma base64url_inj:
  assumes "golib_contract L" and "base64url L x = base64url L y"
  shows "x = y"
proof -
  from assms(1) have "base64url_decode L (base64url L x) = Some x"
    and "base64url_decode L (base64url L y) = Some y"
    by (simp_all add: golib_contract_def)
  with assms(2) have "Some x = Some y"
    by (simp only:)
  then show ?thesis
    by (simp only: option.inject)
qed

lemma base64url_no_dot:
  assumes "golib_contract L"
  shows "CHR ''.'' \<notin> set (base64url L x)"
  using assms by (simp add: golib_contract_def)

lemma validate_signed:
  assumes "golib_contract L" and "json_Marshal L c = Some payload"
  shows "ValidateSignedToken L
           (base64url L payload @ ''.'' @ base64url L (hmac_sha256 L key (base64url L payload))) key
         = None"
proof -
  have split: "SplitN2 (base64url L payload @ ''.''
                  @ base64url L (hmac_sha256 L key (base64url L payload))) CHR ''.''
      = [base64url L payload, base64url L (hmac_sha256 L key (base64url L payload))]"
    using SplitN2_first [OF base64url_no_dot [OF assms(1)]] by simp
  have dec: "base64url_decode L (base64url L payload) = Some payload"
    using assms(1) by (simp add: golib_contract_def)
  have "json_Unmarshal L payload \<noteq> None"
    using assms by (auto simp: golib_contract_def)
  then obtain c' where "json_Unmarshal L payload = Some c'"
    by blast
  with split dec show ?thesis
    by (simp add: ValidateSignedToken_def ConstantTimeCompare_def Let_def)
qed

lemma validate_wrong_signature:
  assumes "CHR ''.'' \<notin> set p" and "s \<noteq> base64url L (hmac_sha256 L key p)"
  shows "ValidateSignedToken L (p @ ''.'' @ s) key = Some InvalidSignature"
proof -
  have "SplitN2 (p @ ''.'' @ s) CHR ''.'' = [p, s]"
    using SplitN2_first [OF assms(1)] by simp
  with assms(2) show ?thesis
    by (simp add: ValidateSignedToken_def ConstantTimeCompare_def Let_def)
qed

text \<open>
  Claim C3. \<^verbatim>\<open>ValidateSignedToken\<close> takes the token and the key and no
  clock. A token signed with the key over the marshalled claims is accepted
  whatever the claims hold: the expiry \<^verbatim>\<open>ExpiresAt\<close> is decoded with the
  payload and compared with nothing, so a token whose expiry is long past
  validates like any other.
\<close>

theorem signed_token_never_expires:
  assumes "golib_contract L"
      and "json_Marshal L \<lparr>claims_Token = raw, IssuedAt = iat, ExpiresAt = expiry\<rparr> = Some payload"
  shows "ValidateSignedToken L
           (base64url L payload @ ''.'' @ base64url L (hmac_sha256 L key (base64url L payload))) key
         = None"
  using assms by (rule validate_signed)

theorem signed_token_never_expires_witness:
  "golib_contract test_lib
   \<and> json_Marshal test_lib \<lparr>claims_Token = ''ab'', IssuedAt = 1000, ExpiresAt = 1\<rparr> = Some ''{ab}''
   \<and> ValidateSignedToken test_lib
        (base64url test_lib ''{ab}'' @ ''.''
           @ base64url test_lib (hmac_sha256 test_lib ''key'' (base64url test_lib ''{ab}''))) ''key''
       = None
   \<and> base64url test_lib ''{ab}'' = ''7b61627d''"
proof -
  have m: "json_Marshal test_lib \<lparr>claims_Token = ''ab'', IssuedAt = 1000, ExpiresAt = 1\<rparr>
             = Some ''{ab}''"
    by (simp add: test_lib_def)
  have e: "base64url test_lib ''{ab}'' = ''7b61627d''"
    by (simp add: test_lib_def hex_EncodeToString_def hexdigit_def)
  from signed_token_never_expires [OF test_lib_contract m, of "''key''"] test_lib_contract m e
  show ?thesis
    by simp
qed

lemma GenerateSignedToken_Inr:
  assumes "GenerateSignedToken L rnd now key ttl = Inr tok"
  obtains bytes payload where "rnd = Some bytes"
    and "json_Marshal L \<lparr>claims_Token = hex_EncodeToString bytes, IssuedAt = now,
                          ExpiresAt = now + ttl\<rparr> = Some payload"
    and "tok = base64url L payload @ ''.''
                 @ base64url L (hmac_sha256 L key (base64url L payload))"
  using assms
  by (auto simp: GenerateSignedToken_def GenerateToken_def Let_def split: option.splits)

text \<open>
  Claim C7. A token that \<^verbatim>\<open>GenerateSignedToken\<close> returned validates under
  the same key. It is a payload segment and a signature segment, neither
  with a dot in it, joined by a dot. Replacing one character of the
  signature segment by another makes \<^verbatim>\<open>ValidateSignedToken\<close> fail with the
  signature error; so does replacing one character of the payload segment,
  given that the MAC tells the payload segment from its one-character
  variants.
\<close>

theorem generated_token_roundtrip_and_tamper:
  assumes "golib_contract L"
      and "GenerateSignedToken L rnd now key ttl = Inr tok"
  shows "ValidateSignedToken L tok key = None
       \<and> (\<exists>p s. tok = p @ ''.'' @ s \<and> CHR ''.'' \<notin> set p \<and> CHR ''.'' \<notin> set s
            \<and> (\<forall>i c. length p < i \<and> i < length tok \<and> c \<noteq> tok ! i \<longrightarrow>
                  ValidateSignedToken L (tok[i := c]) key = Some InvalidSignature)
            \<and> (mac_separates L key p \<longrightarrow>
                 (\<forall>i c. i < length p \<and> c \<noteq> tok ! i \<longrightarrow>
                    ValidateSignedToken L (tok[i := c]) key = Some InvalidSignature)))"
proof -
  from assms(2) obtain bytes payload
    where m: "json_Marshal L \<lparr>claims_Token = hex_EncodeToString bytes, IssuedAt = now,
                               ExpiresAt = now + ttl\<rparr> = Some payload"
      and t: "tok = base64url L payload @ ''.''
                      @ base64url L (hmac_sha256 L key (base64url L payload))"
    by (rule GenerateSignedToken_Inr)
  define p where "p = base64url L payload"
  define s where "s = base64url L (hmac_sha256 L key p)"
  have tok: "tok = p @ CHR ''.'' # s"
    by (simp add: t p_def s_def)
  have np: "CHR ''.'' \<notin> set p" and ns: "CHR ''.'' \<notin> set s"
    using assms(1) by (simp_all add: p_def s_def base64url_no_dot)
  have ok: "ValidateSignedToken L tok key = None"
    unfolding t using assms(1) m by (rule validate_signed)
  have sig: "ValidateSignedToken L (tok[i := c]) key = Some InvalidSignature"
    if "length p < i" and "i < length tok" and "c \<noteq> tok ! i" for i c
  proof -
    define j where "j = i - Suc (length p)"
    have i: "i = length p + Suc j" and j: "j < length s"
      using that(1,2) by (simp_all add: j_def tok)
    have "tok ! i = s ! j"
      unfolding tok i by (simp add: nth_append)
    with that(3) j have "s[j := c] \<noteq> s"
      by (metis nth_list_update_eq)
    moreover have "tok[i := c] = p @ ''.'' @ s[j := c]"
      unfolding tok i by (simp add: list_update_append)
    ultimately show ?thesis
      using validate_wrong_signature [OF np, of "s[j := c]" L key] by (simp add: s_def)
  qed
  have pay: "ValidateSignedToken L (tok[i := c]) key = Some InvalidSignature"
    if sep: "mac_separates L key p" and "i < length p" and "c \<noteq> tok ! i" for i c
  proof (cases "c = CHR ''.''")
    case True
    have upd: "tok[i := c] = take i p @ ''.'' @ (drop (Suc i) p @ ''.'' @ s)"
      unfolding tok using that(2) True by (simp add: list_update_append upd_conv_take_nth_drop)
    have "CHR ''.'' \<notin> set (take i p)"
      using np by (auto dest: in_set_takeD)
    moreover have "drop (Suc i) p @ ''.'' @ s \<noteq> base64url L (hmac_sha256 L key (take i p))"
    proof
      assume "drop (Suc i) p @ ''.'' @ s = base64url L (hmac_sha256 L key (take i p))"
      then have "CHR ''.'' \<in> set (base64url L (hmac_sha256 L key (take i p)))"
        by (metis in_set_conv_decomp append_Cons append_Nil)
      with assms(1) show False
        by (simp add: base64url_no_dot)
    qed
    ultimately show ?thesis
      unfolding upd by (rule validate_wrong_signature)
  next
    case False
    have c: "c \<noteq> p ! i"
      using that(2,3) by (simp add: tok nth_append)
    have upd: "tok[i := c] = p[i := c] @ ''.'' @ s"
      unfolding tok using that(2) by (simp add: list_update_append)
    have "set (p[i := c]) \<subseteq> insert c (set p)"
      by (rule set_update_subset_insert)
    with np False have "CHR ''.'' \<notin> set (p[i := c])"
      by auto
    moreover have "s \<noteq> base64url L (hmac_sha256 L key (p[i := c]))"
    proof
      assume "s = base64url L (hmac_sha256 L key (p[i := c]))"
      then have "hmac_sha256 L key p = hmac_sha256 L key (p[i := c])"
        unfolding s_def by (rule base64url_inj [OF assms(1)])
      moreover from sep that(2) c
      have "hmac_sha256 L key (p[i := c]) \<noteq> hmac_sha256 L key p"
        unfolding mac_separates_def by blast
      ultimately show False
        by simp
    qed
    ultimately show ?thesis
      unfolding upd by (rule validate_wrong_signature)
  qed
  have "tok = p @ ''.'' @ s"
    by (simp add: tok)
  with ok np ns sig pay show ?thesis
    by blast
qed

lemma test_lib_mac_separates: "mac_separates test_lib key p"
proof -
  have "p[i := c] \<noteq> p" if "i < length p" and "c \<noteq> p ! i" for i c
    using that by (metis nth_list_update_eq)
  then show ?thesis
    by (simp add: mac_separates_def test_lib_def)
qed

lemma takeWhile_before_sep:
  "sep \<notin> set p \<Longrightarrow> takeWhile (\<lambda>c. c \<noteq> sep) (p @ sep # s) = p"
  by (induction p) auto

theorem generated_token_roundtrip_and_tamper_witness:
  "golib_contract test_lib
   \<and> GenerateSignedToken test_lib (Some ''seed'') 1000 ''key'' 60
       = Inr ''7b37333635363536347d.6b65793762333733333336333533363335333633343764''
   \<and> ValidateSignedToken test_lib
        ''7b37333635363536347d.6b65793762333733333336333533363335333633343764'' ''key'' = None
   \<and> mac_separates test_lib ''key'' ''7b37333635363536347d''
   \<and> ValidateSignedToken test_lib
        (''7b37333635363536347d.6b65793762333733333336333533363335333633343764''[3 := CHR ''0''])
        ''key'' = Some InvalidSignature
   \<and> ValidateSignedToken test_lib
        (''7b37333635363536347d.6b65793762333733333336333533363335333633343764''[30 := CHR ''0''])
        ''key'' = Some InvalidSignature"
proof -
  let ?tok = "''7b37333635363536347d.6b65793762333733333336333533363335333633343764''"
  let ?p = "''7b37333635363536347d''"
  let ?s = "''6b65793762333733333336333533363335333633343764''"
  have gen: "GenerateSignedToken test_lib (Some ''seed'') 1000 ''key'' 60 = Inr ?tok"
    by (simp add: GenerateSignedToken_def GenerateToken_def test_lib_def hex_EncodeToString_def
          hexdigit_def Let_def)
  from generated_token_roundtrip_and_tamper [OF test_lib_contract gen]
  obtain p s where ok: "ValidateSignedToken test_lib ?tok ''key'' = None"
    and split: "?tok = p @ ''.'' @ s" and np: "CHR ''.'' \<notin> set p"
    and sig: "\<And>i c. length p < i \<Longrightarrow> i < length ?tok \<Longrightarrow> c \<noteq> ?tok ! i \<Longrightarrow>
                ValidateSignedToken test_lib (?tok[i := c]) ''key'' = Some InvalidSignature"
    and pay: "\<And>i c. mac_separates test_lib ''key'' p \<Longrightarrow> i < length p \<Longrightarrow> c \<noteq> ?tok ! i \<Longrightarrow>
                ValidateSignedToken test_lib (?tok[i := c]) ''key'' = Some InvalidSignature"
    by blast
  have "takeWhile (\<lambda>c. c \<noteq> CHR ''.'') ?tok = takeWhile (\<lambda>c. c \<noteq> CHR ''.'') (p @ ''.'' @ s)"
    using split by (simp only:)
  also have "\<dots> = p"
    using takeWhile_before_sep [OF np] by simp
  finally have p: "p = ?p"
    by simp
  have sep: "mac_separates test_lib ''key'' ?p"
    by (rule test_lib_mac_separates)
  have a: "ValidateSignedToken test_lib (?tok[3 := CHR ''0'']) ''key'' = Some InvalidSignature"
    using pay [of 3 "CHR ''0''"] sep unfolding p by simp
  have b: "ValidateSignedToken test_lib (?tok[30 := CHR ''0'']) ''key'' = Some InvalidSignature"
    using sig [of 30 "CHR ''0''"] unfolding p by simp
  show ?thesis
    by (intro conjI test_lib_contract gen ok sep a b)
qed

subsection \<open>Five failures that do not lock\<close>







end
